theory Spec2Isabelle
  imports Main
begin

section \<open>The task runner of run\_task.py\<close>

text \<open>
  The module drives an external agent (class \<open>AgentB\<close> of module \<open>agent_b\<close>) through a
  fixed catalogue \<open>TASKS\<close>, collects one result dictionary per task and writes a summary
  report. The embedding makes the effects explicit:
  \<^item> a raised Python exception is a value of type \<open>exn\<close>;
  \<^item> the agent is a parameter: a state machine whose three operations may raise;
  \<^item> every call to the agent, every \<open>asyncio.sleep\<close> and the write of the report is
    logged as an \<open>event\<close>, in program order;
  \<^item> the \<open>for\<close> loop is a recursive function on the task list.
  Calls of \<open>print\<close> that only show progress neither change data nor control flow and are
  left out; the one message that is the whole effect of a branch (the invalid index of
  \<open>run_single_task\<close>) is an event.
\<close>

subsection \<open>Exceptions\<close>

text \<open>
  \<open>except Exception\<close> catches the instances of \<open>Exception\<close> and lets every other
  \<open>BaseException\<close> (\<open>KeyboardInterrupt\<close>, \<open>SystemExit\<close>, \<open>asyncio.CancelledError\<close>) pass.
  The argument is the text \<open>str(e)\<close>.
\<close>

datatype exn = Exception string | BaseException string

subsection \<open>Data\<close>

text \<open>An entry of \<open>TASKS\<close>: a dictionary with exactly these four keys.\<close>

record task =
  app :: string
  description :: string
  url :: string
  expected_states :: "string list"

text \<open>
  The catalogue. The two coroutines read this global; in the model they take the list as
  their parameter \<open>jobs\<close>, so every property holds for any catalogue and for this one.
\<close>

definition TASKS :: "task list" where
  "TASKS =
     [\<lparr> app = ''Linear'',
        description = ''Create a new project in Linear'',
        url = ''https://linear.app/test916/team/TES/active'',
        expected_states =
          [''Projects list view'', ''Create project button visible'',
           ''Create project modal open'', ''Project name input field'',
           ''Project settings options'', ''Success state with new project''] \<rparr>,
      \<lparr> app = ''Linear'',
        description = ''Create a new issue in Linear'',
        url = ''https://linear.app/test916/team/TES/active'',
        expected_states =
          [''Issues board view'', ''New issue button visible'', ''Issue creation modal'',
           ''Title and description fields'', ''Priority and assignee options'',
           ''Issue created confirmation''] \<rparr>,
      \<lparr> app = ''Linear'',
        description = ''Filter issues by status in Linear'',
        url = ''https://linear.app/test916/team/TES/active'',
        expected_states =
          [''Issues view with filters'', ''Filter menu button'', ''Filter dropdown expanded'',
           ''Status filter options'', ''Applied filter view'',
           ''Filtered results displayed''] \<rparr>,
      \<lparr> app = ''Notion'',
        description = ''Create a new page in Notion'',
        url = ''https://www.notion.so/'',
        expected_states =
          [''Notion workspace'', ''New page button'', ''Empty page editor'', ''Title input'',
           ''Content area'', ''Page saved''] \<rparr>,
      \<lparr> app = ''Notion'',
        description = ''Filter a database by property in Notion'',
        url = ''https://www.notion.so/'',
        expected_states =
          [''Database view'', ''Filter button visible'', ''Filter options panel'',
           ''Property selection'', ''Filter applied'', ''Filtered database results''] \<rparr>]"

text \<open>
  A dictionary appended to \<open>results\<close>. The keys \<open>task\<close>, \<open>app\<close> and \<open>status\<close> are always
  there (fields \<open>r_task\<close>, \<open>r_app\<close>, \<open>status\<close>); \<open>manifest\<close> and \<open>error\<close> are keys that a
  dictionary has or has not, hence options.
\<close>

record result =
  r_task :: string
  r_app :: string
  status :: string
  manifest :: "string option"
  error :: "string option"

text \<open>The constant value under the key \<open>dataset_structure\<close> of the report.\<close>

record dataset_structure =
  root :: string
  format :: string
  manifest_fields :: "string list"
  state_fields :: "string list"

text \<open>
  The dictionary \<open>report\<close>. \<open>apps_covered\<close> is \<open>list(set(...))\<close>: a list that holds every
  distinct application once, in an order that Python does not specify; the model lists
  them in order of first occurrence and no theorem below depends on that order.
\<close>

record report =
  total_tasks :: int
  successful_tasks :: int
  failed_tasks :: int
  apps_covered :: "string list"
  tasks :: "result list"
  dataset_structure :: dataset_structure

subsection \<open>The agent and the events of a run\<close>

text \<open>
  Class \<open>AgentB\<close> is imported from a module that is not part of the sources at hand, so
  the agent is a parameter of every function below: a state of any type \<open>'s\<close> and the
  three coroutines the runner awaits, each returning the new state and either its
  value or the exception it raised.
\<close>

record 's agent =
  initialize_browser :: "bool \<Rightarrow> 's \<Rightarrow> exn option \<times> 's"
  execute_task :: "string \<Rightarrow> string \<Rightarrow> int \<Rightarrow> 's \<Rightarrow> (exn + string) \<times> 's"
  close_browser :: "'s \<Rightarrow> exn option \<times> 's"

datatype event =
    Init bool
  | Exec string string int
  | Sleep int
  | Close
  | Write_report report
  | Print_invalid_index int

fun is_init :: "event \<Rightarrow> bool" where
  "is_init (Init h) = True"
| "is_init e = False"

fun is_exec :: "event \<Rightarrow> bool" where
  "is_exec (Exec d u m) = True"
| "is_exec e = False"



text \<open>
  What a coroutine of the runner leaves behind: the exception that left it (\<open>None\<close> when
  it returned), the agent's state and the events in program order.
\<close>

record 's run =
  raised :: "exn option"
  agent_state :: 's
  trace :: "event list"

text \<open>For \<open>run_all_tasks\<close>, also the local list \<open>results\<close> as it stands at the exit.\<close>

record 's batch_run = "'s run" +
  results :: "result list"

subsection \<open>generate\_summary\_report\<close>

definition the_dataset_structure :: dataset_structure where
  "the_dataset_structure =
     \<lparr> root = ''captured_states/'',
       format = ''Each task has its own directory with manifest.json and screenshots'',
       manifest_fields =
         [''task'', ''total_steps'', ''states (array of state objects)'', ''captured_at''],
       state_fields =
         [''step'', ''description'', ''timestamp'', ''url'', ''screenshot'', ''viewport'',
          ''title'', ''metadata''] \<rparr>"

text \<open>The dictionary literal bound to \<open>report\<close>.\<close>

definition summary_report :: "result list \<Rightarrow> report" where
  "summary_report rs =
     \<lparr> total_tasks = int (length rs),
       successful_tasks = sum_list (map (\<lambda>r. 1) (filter (\<lambda>r. status r = ''success'') rs)),
       failed_tasks = sum_list (map (\<lambda>r. 1) (filter (\<lambda>r. status r = ''failed'') rs)),
       apps_covered = remdups (map r_app rs),
       tasks = rs,
       dataset_structure = the_dataset_structure \<rparr>"

text \<open>
  Opening \<open>dataset_summary.json\<close> and dumping the report into it may raise (\<open>OSError\<close>);
  the parameter \<open>save\<close> says whether it does. The function gives back the exception, if
  any, and the event of the attempted write.
\<close>

definition generate_summary_report ::
  "(report \<Rightarrow> exn option) \<Rightarrow> result list \<Rightarrow> exn option \<times> event list" where
  "generate_summary_report save rs =
     (let report = summary_report rs in (save report, [Write_report report]))"

subsection \<open>run\_all\_tasks\<close>

text \<open>The two dictionary literals appended to \<open>results\<close>.\<close>

definition success_result :: "'m task_scheme \<Rightarrow> string \<Rightarrow> result" where
  "success_result t manifest_path =
     \<lparr> r_task = description t, r_app = app t, status = ''success'',
       manifest = Some manifest_path, error = None \<rparr>"

definition failed_result :: "'m task_scheme \<Rightarrow> string \<Rightarrow> result" where
  "failed_result t e =
     \<lparr> r_task = description t, r_app = app t, status = ''failed'',
       manifest = None, error = Some e \<rparr>"

text \<open>
  The \<open>for\<close> loop with its inner \<open>try\<close>. On success the result is appended and the
  coroutine sleeps 3 seconds, all inside the \<open>try\<close>; an \<open>Exception\<close> is caught and a
  failed result appended; any other exception ends the loop and is handed on.
  \<open>asyncio.sleep\<close> itself is taken to return.
\<close>

fun task_loop ::
  "'s agent \<Rightarrow> 'm task_scheme list \<Rightarrow> result list \<Rightarrow> 's \<Rightarrow> event list
     \<Rightarrow> exn option \<times> result list \<times> 's \<times> event list" where
  "task_loop ag [] rs s tr = (None, rs, s, tr)"
| "task_loop ag (t # ts) rs s tr =
     (case execute_task ag (description t) (url t) 15 s of
        (reply, s') \<Rightarrow>
          (case reply of
             Inr manifest_path \<Rightarrow>
               task_loop ag ts (rs @ [success_result t manifest_path]) s'
                 (tr @ [Exec (description t) (url t) 15, Sleep 3])
           | Inl e \<Rightarrow>
               (case e of
                  Exception msg \<Rightarrow>
                    task_loop ag ts (rs @ [failed_result t msg]) s'
                      (tr @ [Exec (description t) (url t) 15])
                | BaseException msg \<Rightarrow>
                    (Some e, rs, s', tr @ [Exec (description t) (url t) 15]))))"

text \<open>
  The \<open>finally\<close> clause: \<open>close_browser\<close> is awaited whatever happened before. If it
  raises, its exception replaces the pending one; otherwise the pending one goes on.
\<close>

definition finally_close ::
  "'s agent \<Rightarrow> exn option \<Rightarrow> 's \<Rightarrow> event list \<Rightarrow> exn option \<times> 's \<times> event list" where
  "finally_close ag pending s tr =
     (case close_browser ag s of
        (Some e, s') \<Rightarrow> (Some e, s', tr @ [Close])
      | (None, s') \<Rightarrow> (pending, s', tr @ [Close]))"

definition run_all_tasks ::
  "'s agent \<Rightarrow> (report \<Rightarrow> exn option) \<Rightarrow> 'm task_scheme list \<Rightarrow> bool \<Rightarrow> 's \<Rightarrow> 's batch_run" where
  "run_all_tasks ag save jobs headless s =
     (case initialize_browser ag headless s of
        (Some e, s1) \<Rightarrow>
          (case finally_close ag (Some e) s1 [Init headless] of
             (pending, s2, tr) \<Rightarrow>
               \<lparr> raised = pending, agent_state = s2, trace = tr, results = [] \<rparr>)
      | (None, s1) \<Rightarrow>
          (case task_loop ag jobs [] s1 [Init headless] of
             (pending, rs, s2, tr) \<Rightarrow>
               (case finally_close ag pending s2 tr of
                  (Some e, s3, tr') \<Rightarrow>
                    \<lparr> raised = Some e, agent_state = s3, trace = tr', results = rs \<rparr>
                | (None, s3, tr') \<Rightarrow>
                    (case generate_summary_report save rs of
                       (r, w) \<Rightarrow>
                         \<lparr> raised = r, agent_state = s3, trace = tr' @ w, results = rs \<rparr>))))"

subsection \<open>run\_single\_task\<close>

text \<open>
  \<open>TASKS[task_index]\<close>: a negative index counts from the end, and an index that is out
  of range on either side raises \<open>IndexError\<close> (\<open>None\<close> here).
\<close>

definition py_index :: "'a list \<Rightarrow> int \<Rightarrow> 'a option" where
  "py_index xs i =
     (let n = int (length xs); j = (if i < 0 then n + i else i)
      in if 0 \<le> j \<and> j < n then Some (xs ! nat j) else None)"

definition run_single_task ::
  "'s agent \<Rightarrow> 'm task_scheme list \<Rightarrow> int \<Rightarrow> bool \<Rightarrow> 's \<Rightarrow> 's run" where
  "run_single_task ag jobs task_index headless s =
     (if task_index \<ge> int (length jobs) then
        \<lparr> raised = None, agent_state = s,
          trace = [Print_invalid_index (int (length jobs) - 1)] \<rparr>
      else
        (case py_index jobs task_index of
           None \<Rightarrow>
             \<lparr> raised = Some (Exception ''list index out of range''), agent_state = s,
               trace = [] \<rparr>
         | Some t \<Rightarrow>
             (case initialize_browser ag headless s of
                (Some e, s1) \<Rightarrow>
                  (case finally_close ag (Some e) s1 [Init headless] of
                     (pending, s2, tr) \<Rightarrow>
                       \<lparr> raised = pending, agent_state = s2, trace = tr \<rparr>)
              | (None, s1) \<Rightarrow>
                  (case execute_task ag (description t) (url t) 15 s1 of
                     (reply, s2) \<Rightarrow>
                       (case finally_close ag
                               (case reply of Inl e \<Rightarrow> Some e | Inr manifest_path \<Rightarrow> None) s2
                               [Init headless, Exec (description t) (url t) 15] of
                          (pending, s3, tr) \<Rightarrow>
                            \<lparr> raised = pending, agent_state = s3, trace = tr \<rparr>)))))"

subsection \<open>Notions used to state the properties\<close>

text \<open>
  What the agent answers to each task of a list when \<open>execute_task\<close> is awaited for one
  task after the other from state \<open>s\<close>, with the arguments the runner passes.
\<close>

fun replies :: "'s agent \<Rightarrow> 'm task_scheme list \<Rightarrow> 's \<Rightarrow> (exn + string) list" where
  "replies ag [] s = []"
| "replies ag (t # ts) s =
     (case execute_task ag (description t) (url t) 15 s of
        (reply, s') \<Rightarrow> reply # replies ag ts s')"

text \<open>A reply that \<open>except Exception\<close> does not catch.\<close>

fun is_uncaught :: "exn + string \<Rightarrow> bool" where
  "is_uncaught (Inl (BaseException msg)) = True"
| "is_uncaught r = False"

text \<open>
  The dictionary the loop appends for a task after the agent's reply to it: the success
  with the returned path, the failure with the text of the exception, and no dictionary
  for a reply that is not caught.
\<close>

fun outcome_of :: "'m task_scheme \<Rightarrow> exn + string \<Rightarrow> result option" where
  "outcome_of t (Inr manifest_path) =
     Some \<lparr> r_task = description t, r_app = app t, status = ''success'',
            manifest = Some manifest_path, error = None \<rparr>"
| "outcome_of t (Inl (Exception msg)) =
     Some \<lparr> r_task = description t, r_app = app t, status = ''failed'',
            manifest = None, error = Some msg \<rparr>"
| "outcome_of t (Inl (BaseException msg)) = None"

text \<open>The events of the loop body: the awaited task and the pause.\<close>

fun is_job_event :: "event \<Rightarrow> bool" where
  "is_job_event (Exec d u m) = True"
| "is_job_event (Sleep n) = True"
| "is_job_event e = False"

text \<open>The same with the constants of the loop body: step bound 15, pause of 3.\<close>

fun is_loop_event :: "event \<Rightarrow> bool" where
  "is_loop_event (Exec d u m) = (m = 15)"
| "is_loop_event (Sleep n) = (n = 3)"
| "is_loop_event e = False"


text \<open>
  The invariant of a result dictionary: the key \<open>manifest\<close> is there exactly for status
  \<open>success\<close>, the key \<open>error\<close> exactly for status \<open>failed\<close>, and one of the two is.
\<close>

definition outcome_ok :: "result \<Rightarrow> bool" where
  "outcome_ok r \<longleftrightarrow>
     (manifest r \<noteq> None \<longleftrightarrow> status r = ''success'') \<and>
     (error r \<noteq> None \<longleftrightarrow> status r = ''failed'') \<and>
     (manifest r = None \<longleftrightarrow> error r \<noteq> None)"


subsection \<open>Fake agents\<close>

text \<open>
  A fake agent that counts the calls of its three operations in its state
  \<open>(inits, execs, closes)\<close> and answers the \<open>n\<close>-th \<open>execute_task\<close> by \<open>script ! n\<close>
  (by a success once the script is used up).
\<close>

definition counting_agent :: "exn option \<Rightarrow> (exn + string) list \<Rightarrow> (nat \<times> nat \<times> nat) agent" where
  "counting_agent init_reply script =
     \<lparr> initialize_browser = (\<lambda>h (i, x, c). (init_reply, (Suc i, x, c))),
       execute_task = (\<lambda>d u m (i, x, c).
          (if x < length script then script ! x else Inr (''captured_states/'' @ d),
           (i, Suc x, c))),
       close_browser = (\<lambda>(i, x, c). (None, (i, x, Suc c))) \<rparr>"

text \<open>The fake whose first \<open>execute_task\<close> fails as a task does and whose later ones succeed.\<close>

definition fail_first :: "(nat \<times> nat \<times> nat) agent" where
  "fail_first = counting_agent None [Inl (Exception ''boom'')]"


text \<open>The fake whose browser does not start.\<close>

definition no_browser :: "(nat \<times> nat \<times> nat) agent" where
  "no_browser = counting_agent (Some (Exception ''no browser'')) []"

text \<open>The fake whose browser does not start and whose close raises as well.\<close>

definition no_browser_no_close :: "(nat \<times> nat \<times> nat) agent" where
  "no_browser_no_close =
     \<lparr> initialize_browser = (\<lambda>h (i, x, c). (Some (Exception ''no browser''), (Suc i, x, c))),
       execute_task = (\<lambda>d u m (i, x, c). (Inr (''captured_states/'' @ d), (i, Suc x, c))),
       close_browser = (\<lambda>(i, x, c). (Some (Exception ''close failed''), (i, x, Suc c))) \<rparr>"

definition job_a :: task where
  "job_a = \<lparr> app = ''Linear'', description = ''Create a new project in Linear'',
     url = ''https://linear.app/test916/team/TES/active'',
     expected_states = [''Projects list view'', ''Create project button visible''] \<rparr>"

definition job_b :: task where
  "job_b = \<lparr> app = ''Notion'', description = ''Create a new page in Notion'',
     url = ''https://www.notion.so/'',
     expected_states = [''Notion workspace'', ''New page button''] \<rparr>"


definition save_ok :: "report \<Rightarrow> exn option" where
  "save_ok r = None"

section \<open>Properties\<close>

subsection \<open>The loop\<close>

lemma outcome_ok_success: "outcome_ok (success_result t p)"
  by (simp add: outcome_ok_def success_result_def)

lemma outcome_ok_failed: "outcome_ok (failed_result t m)"
  by (simp add: outcome_ok_def failed_result_def)

lemma loop_trace:
  "task_loop ag ts rs s tr = (p, rs', s', tr') \<Longrightarrow>
     \<exists>mid. tr' = tr @ mid \<and> list_all is_loop_event mid"
proof (induction ts arbitrary: rs s tr)
  case Nil
  then show ?case by simp
next
  case (Cons t ts)
  then show ?case
    by (fastforce split: prod.splits sum.splits exn.splits)
qed


lemma loop_caught:
  "\<not> list_ex is_uncaught (replies ag ts s) \<Longrightarrow> task_loop ag ts rs s tr = (p, rs', s', tr') \<Longrightarrow>
     p = None \<and> map r_task rs' = map r_task rs @ map description ts
       \<and> map r_app rs' = map r_app rs @ map app ts
       \<and> filter is_exec tr' = filter is_exec tr @ map (\<lambda>t. Exec (description t) (url t) 15) ts"
proof (induction ts arbitrary: rs s tr)
  case Nil
  then show ?case by simp
next
  case (Cons t ts)
  then show ?case
    by (auto split: prod.splits sum.splits exn.splits simp: success_result_def failed_result_def)
qed

lemma loop_outcomes:
  "\<not> list_ex is_uncaught (replies ag ts s) \<Longrightarrow> task_loop ag ts rs s tr = (p, rs', s', tr') \<Longrightarrow>
     map Some rs' = map Some rs @ map2 outcome_of ts (replies ag ts s)"
proof (induction ts arbitrary: rs s tr)
  case Nil
  then show ?case by simp
next
  case (Cons t ts)
  then show ?case
    by (auto split: prod.splits sum.splits exn.splits simp: success_result_def failed_result_def)
qed

lemma loop_prefix:
  "task_loop ag ts rs s tr = (p, rs', s', tr') \<Longrightarrow> \<exists>more. rs' = rs @ more"
proof (induction ts arbitrary: rs s tr)
  case Nil
  then show ?case by simp
next
  case (Cons t ts)
  then show ?case
    by (fastforce split: prod.splits sum.splits exn.splits)
qed

lemma loop_failed:
  "\<not> list_ex is_uncaught (replies ag ts s) \<Longrightarrow> task_loop ag ts rs s tr = (p, rs', s', tr') \<Longrightarrow>
     k < length ts \<Longrightarrow> replies ag ts s ! k = Inl (Exception msg) \<Longrightarrow>
     rs' ! (length rs + k) = failed_result (ts ! k) msg"
proof (induction ts arbitrary: rs s tr k)
  case Nil
  then show ?case by simp
next
  case (Cons t ts)
  obtain reply s1 where ex: "execute_task ag (description t) (url t) 15 s = (reply, s1)"
    by (cases "execute_task ag (description t) (url t) 15 s")
  from Cons.prems(1) ex have caught: "\<not> is_uncaught reply"
    and rest: "\<not> list_ex is_uncaught (replies ag ts s1)"
    by simp_all
  show ?case
  proof (cases k)
    case 0
    with Cons.prems(4) ex have reply: "reply = Inl (Exception msg)" by simp
    with Cons.prems(2) ex
    have "task_loop ag ts (rs @ [failed_result t msg]) s1
            (tr @ [Exec (description t) (url t) 15]) = (p, rs', s', tr')"
      by simp
    from loop_prefix [OF this] obtain more where "rs' = (rs @ [failed_result t msg]) @ more"
      by blast
    with 0 show ?thesis by (simp add: nth_append)
  next
    case (Suc j)
    with Cons.prems(3) have j: "j < length ts" by simp
    from Suc Cons.prems(4) ex have rj: "replies ag ts s1 ! j = Inl (Exception msg)" by simp
    from caught Cons.prems(2) ex obtain x trx where
      step: "task_loop ag ts (rs @ [x]) s1 trx = (p, rs', s', tr')"
      by (auto split: sum.splits exn.splits)
    from Cons.IH [OF rest step j rj] Suc show ?thesis by simp
  qed
qed

lemma loop_appends_ok:
  "task_loop ag ts rs s tr = (p, rs', s', tr') \<Longrightarrow>
     \<exists>more. rs' = rs @ more \<and> list_all outcome_ok more"
proof (induction ts arbitrary: rs s tr)
  case Nil
  then show ?case by simp
next
  case (Cons t ts)
  obtain reply s1 where ex: "execute_task ag (description t) (url t) 15 s = (reply, s1)"
    by (cases "execute_task ag (description t) (url t) 15 s")
  show ?case
  proof (cases "is_uncaught reply")
    case True
    with Cons.prems ex show ?thesis
      by (auto split: sum.splits exn.splits)
  next
    case False
    with Cons.prems ex obtain x trx where
      step: "task_loop ag ts (rs @ [x]) s1 trx = (p, rs', s', tr')" and x: "outcome_ok x"
      by (auto split: sum.splits exn.splits simp: outcome_ok_success outcome_ok_failed)
    from Cons.IH [OF step] obtain more where "rs' = (rs @ [x]) @ more" "list_all outcome_ok more"
      by blast
    with x have "rs' = rs @ (x # more) \<and> list_all outcome_ok (x # more)" by simp
    then show ?thesis by blast
  qed
qed

subsection \<open>The whole run\<close>



lemma run_all_tasks_init_failed:
  assumes "initialize_browser ag headless s = (Some e, s1)"
  shows "trace (run_all_tasks ag save jobs headless s) = [Init headless, Close]"
    and "results (run_all_tasks ag save jobs headless s) = []"
  using assms
  by (auto simp: run_all_tasks_def finally_close_def split: prod.splits option.splits)

lemma run_all_tasks_init_ok:
  assumes "initialize_browser ag headless s = (None, s1)"
    and "task_loop ag jobs [] s1 [Init headless] = (p, rs, s2, tr)"
  shows "results (run_all_tasks ag save jobs headless s) = rs"
    and "trace (run_all_tasks ag save jobs headless s) = tr @ [Close] \<or>
         trace (run_all_tasks ag save jobs headless s) = tr @ [Close, Write_report (summary_report rs)]"
  using assms
  by (auto simp: run_all_tasks_def finally_close_def generate_summary_report_def Let_def
      split: prod.splits option.splits)


lemma run_all_tasks_written:
  "Write_report rep \<in> set (trace (run_all_tasks ag save jobs headless s)) \<Longrightarrow>
     rep = summary_report (results (run_all_tasks ag save jobs headless s))"
proof (cases "initialize_browser ag headless s")
  case (Pair r s1)
  assume w: "Write_report rep \<in> set (trace (run_all_tasks ag save jobs headless s))"
  show ?thesis
  proof (cases r)
    case (Some e)
    with Pair have "trace (run_all_tasks ag save jobs headless s) = [Init headless, Close]"
      by (simp add: run_all_tasks_init_failed(1))
    with w show ?thesis by simp
  next
    case None
    obtain p rs s2 tr where loop: "task_loop ag jobs [] s1 [Init headless] = (p, rs, s2, tr)"
      by (cases "task_loop ag jobs [] s1 [Init headless]")
    from loop_trace [OF loop] obtain mid where
      tr: "tr = [Init headless] @ mid" and mid: "list_all is_loop_event mid"
      by blast
    from mid have "Write_report rep \<notin> set mid"
      by (auto simp: list_all_iff)
    moreover from None Pair have init: "initialize_browser ag headless s = (None, s1)"
      by simp
    ultimately show ?thesis
      using w tr run_all_tasks_init_ok [OF init loop, of save] by auto
  qed
qed

subsection \<open>Runs of the fake agents\<close>

lemma fail_first_run:
  "run_all_tasks fail_first save_ok [job_a, job_b] False (0, 0, 0) =
     \<lparr> raised = None, agent_state = (1, 2, 1),
       trace = [Init False,
                Exec (description job_a) (url job_a) 15,
                Exec (description job_b) (url job_b) 15, Sleep 3,
                Close,
                Write_report (summary_report
                  [failed_result job_a ''boom'',
                   success_result job_b (''captured_states/'' @ description job_b)])],
       results = [failed_result job_a ''boom'',
                  success_result job_b (''captured_states/'' @ description job_b)] \<rparr>"
  by (simp add: run_all_tasks_def finally_close_def generate_summary_report_def
      counting_agent_def fail_first_def save_ok_def)

lemma fail_first_init:
  "initialize_browser fail_first False (0, 0, 0) = (None, (Suc 0, 0, 0))"
  by (simp add: counting_agent_def fail_first_def)

lemma fail_first_replies:
  "replies fail_first [job_a, job_b] (Suc 0, 0, 0) =
     [Inl (Exception ''boom''), Inr (''captured_states/'' @ description job_b)]"
  by (simp add: counting_agent_def fail_first_def)


section \<open>The claims\<close>

subsection \<open>C1: one outcome per job, in the order of the jobs\<close>

text \<open>
  Claim C1. For every job sequence, the run produces an ordered outcome sequence of the
  same length as the input, with exactly one outcome per job and in the order of the
  jobs.

  The outcome sequence is the list \<open>results\<close>, which \<open>run_all_tasks\<close> hands to
  \<open>generate_summary_report\<close>. The run meant is one whose session starts and in which
  \<open>execute_task\<close> fails, if it fails, with an \<open>Exception\<close> (the kind the loop catches).
  Then \<open>execute_task\<close> is awaited once for every job, in the order of the jobs, and
  the \<open>k\<close>-th entry of \<open>results\<close> is the outcome of the \<open>k\<close>-th job: the dictionary made
  from that job and from the agent's reply to it. So \<open>results\<close> has one entry per job,
  each naming the task and the application of its job, and a report that is written
  carries exactly this list.
\<close>

theorem run_all_tasks_one_outcome_per_job:
  assumes "initialize_browser ag headless s = (None, s1)"
    and "\<not> list_ex is_uncaught (replies ag jobs s1)"
  shows "map Some (results (run_all_tasks ag save jobs headless s))
           = map2 outcome_of jobs (replies ag jobs s1)
       \<and> filter is_exec (trace (run_all_tasks ag save jobs headless s)) =
           map (\<lambda>t. Exec (description t) (url t) 15) jobs
       \<and> length (results (run_all_tasks ag save jobs headless s)) = length jobs
       \<and> map r_task (results (run_all_tasks ag save jobs headless s)) = map description jobs
       \<and> map r_app (results (run_all_tasks ag save jobs headless s)) = map app jobs
       \<and> (\<forall>rep. Write_report rep \<in> set (trace (run_all_tasks ag save jobs headless s))
            \<longrightarrow> tasks rep = results (run_all_tasks ag save jobs headless s))"
proof -
  obtain p rs s2 tr where loop: "task_loop ag jobs [] s1 [Init headless] = (p, rs, s2, tr)"
    by (cases "task_loop ag jobs [] s1 [Init headless]")
  have res: "results (run_all_tasks ag save jobs headless s) = rs"
    by (rule run_all_tasks_init_ok(1) [OF assms(1) loop])
  from loop_outcomes [OF assms(2) loop]
  have out: "map Some rs = map2 outcome_of jobs (replies ag jobs s1)"
    by simp
  from loop_caught [OF assms(2) loop]
  have d: "map r_task rs = map description jobs" and a: "map r_app rs = map app jobs"
    and x: "filter is_exec tr = map (\<lambda>t. Exec (description t) (url t) 15) jobs"
    by simp_all
  from d have len: "length rs = length jobs"
    by (metis length_map)
  from run_all_tasks_init_ok(2) [OF assms(1) loop, of save] x
  have ex: "filter is_exec (trace (run_all_tasks ag save jobs headless s)) =
           map (\<lambda>t. Exec (description t) (url t) 15) jobs"
    by auto
  have "\<forall>rep. Write_report rep \<in> set (trace (run_all_tasks ag save jobs headless s))
            \<longrightarrow> tasks rep = results (run_all_tasks ag save jobs headless s)"
  proof (intro allI impI)
    fix rep
    assume "Write_report rep \<in> set (trace (run_all_tasks ag save jobs headless s))"
    then have "rep = summary_report (results (run_all_tasks ag save jobs headless s))"
      by (rule run_all_tasks_written)
    then show "tasks rep = results (run_all_tasks ag save jobs headless s)"
      by (simp add: summary_report_def)
  qed
  with res out d a len ex show ?thesis by simp
qed

text \<open>
  Two jobs, of which the agent fails the first and completes the second: the failed
  dictionary of the first job, then the success of the second with the returned path.
\<close>

theorem run_all_tasks_one_outcome_per_job_witness:
  "initialize_browser fail_first False (0, 0, 0) = (None, (Suc 0, 0, 0))
   \<and> \<not> list_ex is_uncaught (replies fail_first [job_a, job_b] (Suc 0, 0, 0))
   \<and> replies fail_first [job_a, job_b] (Suc 0, 0, 0) =
        [Inl (Exception ''boom''), Inr (''captured_states/'' @ description job_b)]
   \<and> results (run_all_tasks fail_first save_ok [job_a, job_b] False (0, 0, 0)) =
        [\<lparr> r_task = description job_a, r_app = app job_a, status = ''failed'',
           manifest = None, error = Some ''boom'' \<rparr>,
         \<lparr> r_task = description job_b, r_app = app job_b, status = ''success'',
           manifest = Some (''captured_states/'' @ description job_b), error = None \<rparr>]
   \<and> filter is_exec (trace (run_all_tasks fail_first save_ok [job_a, job_b] False (0, 0, 0))) =
        [Exec (description job_a) (url job_a) 15, Exec (description job_b) (url job_b) 15]
   \<and> length (results (run_all_tasks fail_first save_ok [job_a, job_b] False (0, 0, 0))) = 2
   \<and> map r_task (results (run_all_tasks fail_first save_ok [job_a, job_b] False (0, 0, 0)))
       = [description job_a, description job_b]
   \<and> map r_app (results (run_all_tasks fail_first save_ok [job_a, job_b] False (0, 0, 0)))
       = [app job_a, app job_b]
   \<and> Write_report (summary_report
         (results (run_all_tasks fail_first save_ok [job_a, job_b] False (0, 0, 0))))
       \<in> set (trace (run_all_tasks fail_first save_ok [job_a, job_b] False (0, 0, 0)))
   \<and> tasks (summary_report
         (results (run_all_tasks fail_first save_ok [job_a, job_b] False (0, 0, 0))))
       = results (run_all_tasks fail_first save_ok [job_a, job_b] False (0, 0, 0))"
proof -
  have h2: "\<not> list_ex is_uncaught (replies fail_first [job_a, job_b] (Suc 0, 0, 0))"
    unfolding fail_first_replies by simp
  have w: "Write_report (summary_report
         (results (run_all_tasks fail_first save_ok [job_a, job_b] False (0, 0, 0))))
       \<in> set (trace (run_all_tasks fail_first save_ok [job_a, job_b] False (0, 0, 0)))"
    by (simp add: fail_first_run)
  from run_all_tasks_one_outcome_per_job [OF fail_first_init h2, of save_ok]
  have c: "map Some (results (run_all_tasks fail_first save_ok [job_a, job_b] False (0, 0, 0)))
           = map2 outcome_of [job_a, job_b] (replies fail_first [job_a, job_b] (Suc 0, 0, 0))
       \<and> filter is_exec (trace (run_all_tasks fail_first save_ok [job_a, job_b] False (0, 0, 0))) =
           map (\<lambda>t. Exec (description t) (url t) 15) [job_a, job_b]
       \<and> length (results (run_all_tasks fail_first save_ok [job_a, job_b] False (0, 0, 0)))
           = length [job_a, job_b]
       \<and> map r_task (results (run_all_tasks fail_first save_ok [job_a, job_b] False (0, 0, 0)))
           = map description [job_a, job_b]
       \<and> map r_app (results (run_all_tasks fail_first save_ok [job_a, job_b] False (0, 0, 0)))
           = map app [job_a, job_b]
       \<and> (\<forall>rep. Write_report rep
              \<in> set (trace (run_all_tasks fail_first save_ok [job_a, job_b] False (0, 0, 0)))
            \<longrightarrow> tasks rep = results (run_all_tasks fail_first save_ok [job_a, job_b] False (0, 0, 0)))"
    .
  from c have r: "results (run_all_tasks fail_first save_ok [job_a, job_b] False (0, 0, 0)) =
        [\<lparr> r_task = description job_a, r_app = app job_a, status = ''failed'',
           manifest = None, error = Some ''boom'' \<rparr>,
         \<lparr> r_task = description job_b, r_app = app job_b, status = ''success'',
           manifest = Some (''captured_states/'' @ description job_b), error = None \<rparr>]"
    unfolding fail_first_replies by (simp add: map_eq_Cons_conv)
  from c w fail_first_init h2 r fail_first_replies show ?thesis
    by simp
qed

subsection \<open>C2: a failed job does not stop the batch\<close>

text \<open>
  Claim C2. If \<open>execute_task\<close> raises a failure for job \<open>k\<close>, the runner catches it at
  the per-job boundary, so that it does not leave the loop, records a failed outcome for
  job \<open>k\<close> whose error message is the text of the failure, and still attempts and records
  every later job.

  A failure is an \<open>Exception\<close>, which is what \<open>except Exception\<close> catches; errors of
  the other kind are the unexpected ones of claim C3. With the session started and no
  such error among the agent's replies: the loop ends without a pending exception,
  entry \<open>k\<close> of \<open>results\<close> is the failed dictionary with the text of the failure, there
  is one entry per job, and \<open>execute_task\<close> was awaited for every job, in order.
\<close>

theorem run_all_tasks_failure_isolated:
  assumes "initialize_browser ag headless s = (None, s1)"
    and "\<not> list_ex is_uncaught (replies ag jobs s1)"
    and "k < length jobs"
    and "replies ag jobs s1 ! k = Inl (Exception msg)"
  shows "fst (task_loop ag jobs [] s1 [Init headless]) = None
       \<and> results (run_all_tasks ag save jobs headless s) ! k =
           \<lparr> r_task = description (jobs ! k), r_app = app (jobs ! k), status = ''failed'',
             manifest = None, error = Some msg \<rparr>
       \<and> length (results (run_all_tasks ag save jobs headless s)) = length jobs
       \<and> filter is_exec (trace (run_all_tasks ag save jobs headless s)) =
           map (\<lambda>t. Exec (description t) (url t) 15) jobs"
proof -
  obtain p rs s2 tr where loop: "task_loop ag jobs [] s1 [Init headless] = (p, rs, s2, tr)"
    by (cases "task_loop ag jobs [] s1 [Init headless]")
  from loop_caught [OF assms(2) loop]
  have p: "p = None" and d: "map r_task rs = map description jobs"
    and x: "filter is_exec tr = map (\<lambda>t. Exec (description t) (url t) 15) jobs"
    by simp_all
  from d have len: "length rs = length jobs"
    by (metis length_map)
  from loop_failed [OF assms(2) loop assms(3) assms(4)]
  have k: "rs ! k = failed_result (jobs ! k) msg" by simp
  have res: "results (run_all_tasks ag save jobs headless s) = rs"
    by (rule run_all_tasks_init_ok(1) [OF assms(1) loop])
  from run_all_tasks_init_ok(2) [OF assms(1) loop, of save] x
  have "filter is_exec (trace (run_all_tasks ag save jobs headless s)) =
           map (\<lambda>t. Exec (description t) (url t) 15) jobs"
    by auto
  with loop p len k res show ?thesis
    by (simp add: failed_result_def)
qed

theorem run_all_tasks_failure_isolated_witness:
  "initialize_browser fail_first False (0, 0, 0) = (None, (Suc 0, 0, 0))
   \<and> \<not> list_ex is_uncaught (replies fail_first [job_a, job_b] (Suc 0, 0, 0))
   \<and> (0::nat) < length [job_a, job_b]
   \<and> replies fail_first [job_a, job_b] (Suc 0, 0, 0) ! 0 = Inl (Exception ''boom'')
   \<and> results (run_all_tasks fail_first save_ok [job_a, job_b] False (0, 0, 0)) ! 0 =
        \<lparr> r_task = description job_a, r_app = app job_a, status = ''failed'',
          manifest = None, error = Some ''boom'' \<rparr>
   \<and> length (results (run_all_tasks fail_first save_ok [job_a, job_b] False (0, 0, 0))) = 2
   \<and> filter is_exec (trace (run_all_tasks fail_first save_ok [job_a, job_b] False (0, 0, 0))) =
        [Exec (description job_a) (url job_a) 15, Exec (description job_b) (url job_b) 15]"
proof -
  have h2: "\<not> list_ex is_uncaught (replies fail_first [job_a, job_b] (Suc 0, 0, 0))"
    unfolding fail_first_replies by simp
  have h3: "(0::nat) < length [job_a, job_b]" by simp
  have h4: "replies fail_first [job_a, job_b] (Suc 0, 0, 0) ! 0 = Inl (Exception ''boom'')"
    unfolding fail_first_replies by simp
  from run_all_tasks_failure_isolated [OF fail_first_init h2 h3 h4, of save_ok]
    fail_first_init h2 h3 h4
  show ?thesis by simp
qed

subsection \<open>C3: the session is opened once and closed once\<close>



subsection \<open>C4: manifest or error, as the status says\<close>

text \<open>
  Claim C4. For every outcome produced by the batch runner exactly one of the fields
  \<open>manifest\<close> and \<open>error\<close> is set, and the status decides which: \<open>manifest\<close> is there
  if and only if the status is \<open>success\<close>, \<open>error\<close> if and only if it is \<open>failed\<close>.

  This holds for every entry of \<open>results\<close> at the exit of \<open>run_all_tasks\<close>, whatever the
  agent does, and so for every entry of a report that is written.
\<close>

theorem run_all_tasks_outcome_invariant:
  "(\<forall>r \<in> set (results (run_all_tasks ag save jobs headless s)). outcome_ok r)
   \<and> (\<forall>rep. Write_report rep \<in> set (trace (run_all_tasks ag save jobs headless s))
         \<longrightarrow> (\<forall>r \<in> set (tasks rep). outcome_ok r))"
proof -
  have res: "\<forall>r \<in> set (results (run_all_tasks ag save jobs headless s)). outcome_ok r"
  proof (cases "initialize_browser ag headless s")
    case (Pair r s1)
    show ?thesis
    proof (cases r)
      case (Some e)
      with Pair show ?thesis by (simp add: run_all_tasks_init_failed(2))
    next
      case None
      with Pair have init: "initialize_browser ag headless s = (None, s1)" by simp
      obtain p rs s2 tr where loop: "task_loop ag jobs [] s1 [Init headless] = (p, rs, s2, tr)"
        by (cases "task_loop ag jobs [] s1 [Init headless]")
      from loop_appends_ok [OF loop] have "list_all outcome_ok rs" by auto
      with run_all_tasks_init_ok(1) [OF init loop, of save] show ?thesis
        by (simp add: list_all_iff)
    qed
  qed
  moreover have "\<forall>rep. Write_report rep \<in> set (trace (run_all_tasks ag save jobs headless s))
         \<longrightarrow> (\<forall>r \<in> set (tasks rep). outcome_ok r)"
  proof (intro allI impI)
    fix rep
    assume "Write_report rep \<in> set (trace (run_all_tasks ag save jobs headless s))"
    then have "rep = summary_report (results (run_all_tasks ag save jobs headless s))"
      by (rule run_all_tasks_written)
    then have "tasks rep = results (run_all_tasks ag save jobs headless s)"
      by (simp add: summary_report_def)
    with res show "\<forall>r \<in> set (tasks rep). outcome_ok r" by simp
  qed
  ultimately show ?thesis by blast
qed

theorem run_all_tasks_outcome_invariant_witness:
  "results (run_all_tasks fail_first save_ok [job_a, job_b] False (0, 0, 0)) =
      [failed_result job_a ''boom'',
       success_result job_b (''captured_states/'' @ description job_b)]
   \<and> outcome_ok (failed_result job_a ''boom'')
   \<and> outcome_ok (success_result job_b (''captured_states/'' @ description job_b))
   \<and> Write_report (summary_report
        [failed_result job_a ''boom'',
         success_result job_b (''captured_states/'' @ description job_b)])
       \<in> set (trace (run_all_tasks fail_first save_ok [job_a, job_b] False (0, 0, 0)))"
  using run_all_tasks_outcome_invariant [of fail_first save_ok "[job_a, job_b]" False "(0, 0, 0)"]
  by (simp add: fail_first_run)

subsection \<open>C5: the figures of the report\<close>

lemma count_ones: "sum_list (map (\<lambda>r. 1::int) xs) = int (length xs)"
  by (induction xs) simp_all

lemma two_way_partition:
  "\<forall>r \<in> set rs. status r = ''success'' \<or> status r = ''failed'' \<Longrightarrow>
     length (filter (\<lambda>r. status r = ''success'') rs) + length (filter (\<lambda>r. status r = ''failed'') rs)
       = length rs"
  by (induction rs) auto

text \<open>
  Claim C5. For every ordered outcome sequence the generated report has: \<open>totalJobs\<close>
  the number of outcomes; \<open>successCount\<close> and \<open>failedCount\<close> the sizes of the two parts
  of the outcomes by status, hence with sum \<open>totalJobs\<close>; \<open>applicationsCovered\<close> the
  applications of the outcomes without duplicates; and \<open>tasks\<close> the whole list in order.

  The two counts add up to the total for outcomes as the data model has them, with a
  status that is \<open>success\<close> or \<open>failed\<close>; the other equations hold for any list. The
  report that \<open>generate_summary_report\<close> writes is this one.
\<close>

theorem summary_report_counts:
  "total_tasks (summary_report rs) = int (length rs)
   \<and> successful_tasks (summary_report rs) = int (length (filter (\<lambda>r. status r = ''success'') rs))
   \<and> failed_tasks (summary_report rs) = int (length (filter (\<lambda>r. status r = ''failed'') rs))
   \<and> ((\<forall>r \<in> set rs. status r = ''success'' \<or> status r = ''failed'') \<longrightarrow>
        successful_tasks (summary_report rs) + failed_tasks (summary_report rs)
          = total_tasks (summary_report rs))
   \<and> set (apps_covered (summary_report rs)) = r_app ` set rs
   \<and> distinct (apps_covered (summary_report rs))
   \<and> tasks (summary_report rs) = rs
   \<and> generate_summary_report save rs =
        (save (summary_report rs), [Write_report (summary_report rs)])"
proof -
  have "(\<forall>r \<in> set rs. status r = ''success'' \<or> status r = ''failed'') \<longrightarrow>
        successful_tasks (summary_report rs) + failed_tasks (summary_report rs)
          = total_tasks (summary_report rs)"
  proof
    assume "\<forall>r \<in> set rs. status r = ''success'' \<or> status r = ''failed''"
    from two_way_partition [OF this]
    show "successful_tasks (summary_report rs) + failed_tasks (summary_report rs)
          = total_tasks (summary_report rs)"
      by (simp add: summary_report_def count_ones)
  qed
  then show ?thesis
    by (simp add: summary_report_def count_ones generate_summary_report_def Let_def)
qed

text \<open>The catalogue of two jobs of which the first failed: 2 = 1 + 1, two applications.\<close>

theorem summary_report_counts_witness:
  "(status (failed_result job_a ''boom'') = ''success'' \<or> status (failed_result job_a ''boom'') = ''failed'')
   \<and> (status (success_result job_b ''p'') = ''success'' \<or> status (success_result job_b ''p'') = ''failed'')
   \<and> total_tasks (summary_report [failed_result job_a ''boom'', success_result job_b ''p'']) = 2
   \<and> successful_tasks (summary_report [failed_result job_a ''boom'', success_result job_b ''p'']) = 1
   \<and> failed_tasks (summary_report [failed_result job_a ''boom'', success_result job_b ''p'']) = 1
   \<and> successful_tasks (summary_report [failed_result job_a ''boom'', success_result job_b ''p''])
       + failed_tasks (summary_report [failed_result job_a ''boom'', success_result job_b ''p''])
       = total_tasks (summary_report [failed_result job_a ''boom'', success_result job_b ''p''])
   \<and> set (apps_covered (summary_report [failed_result job_a ''boom'', success_result job_b ''p'']))
       = {''Linear'', ''Notion''}"
  using summary_report_counts [of "[failed_result job_a ''boom'', success_result job_b ''p'']" save_ok]
  by (simp add: failed_result_def success_result_def job_a_def job_b_def)

subsection \<open>C6: the pause between jobs\<close>

text \<open>
  Claim C6. After every job that completes, with status success or failed, and that is
  followed by another job, the runner pauses for 3 time units, after recording the
  outcome and before starting the next job.

  The code pauses after a success only: \<open>asyncio.sleep(3)\<close>, under the comment
  \<open>Brief pause between tasks\<close>, stands in the body of the \<open>try\<close> behind the append of
  the success, and the \<open>except\<close> branch has no pause. On the catalogue, with an agent
  whose first task fails, the second task is awaited right after the first; the pauses
  follow the four tasks that succeed.
\<close>

theorem run_all_tasks_no_pause_after_failure:
  "filter is_job_event (trace (run_all_tasks fail_first save_ok TASKS False (0, 0, 0))) =
     [Exec ''Create a new project in Linear'' ''https://linear.app/test916/team/TES/active'' 15,
      Exec ''Create a new issue in Linear'' ''https://linear.app/test916/team/TES/active'' 15,
      Sleep 3,
      Exec ''Filter issues by status in Linear'' ''https://linear.app/test916/team/TES/active'' 15,
      Sleep 3,
      Exec ''Create a new page in Notion'' ''https://www.notion.so/'' 15,
      Sleep 3,
      Exec ''Filter a database by property in Notion'' ''https://www.notion.so/'' 15,
      Sleep 3]
   \<and> map status (results (run_all_tasks fail_first save_ok TASKS False (0, 0, 0))) =
     [''failed'', ''success'', ''success'', ''success'', ''success'']"
  by (simp add: run_all_tasks_def finally_close_def generate_summary_report_def
      counting_agent_def fail_first_def save_ok_def TASKS_def failed_result_def success_result_def)

subsection \<open>C7: a failure in single-task mode\<close>




subsection \<open>C8: a position behind the catalogue\<close>

text \<open>
  Claim C8. For every requested position greater than or equal to the length of the
  catalogue, single-job mode fails with the condition \<open>InvalidSelection\<close> before any
  session is created, with no session initialisation and no task execution.

  In the code the condition is the message \<open>Invalid task index\<close> with the range of the
  valid positions, followed by \<open>return\<close>: nothing is raised, the agent is not even
  constructed, and the message is the only event.
\<close>

theorem run_single_task_invalid_index:
  assumes "int (length jobs) \<le> task_index"
  shows "run_single_task ag jobs task_index headless s =
           \<lparr> raised = None, agent_state = s,
             trace = [Print_invalid_index (int (length jobs) - 1)] \<rparr>
       \<and> filter is_init (trace (run_single_task ag jobs task_index headless s)) = []
       \<and> filter is_exec (trace (run_single_task ag jobs task_index headless s)) = []"
  using assms by (simp add: run_single_task_def)

text \<open>The position equal to the length of the catalogue.\<close>

theorem run_single_task_invalid_index_witness:
  "int (length TASKS) \<le> 5
   \<and> run_single_task fail_first TASKS 5 False (0, 0, 0) =
        \<lparr> raised = None, agent_state = (0, 0, 0), trace = [Print_invalid_index 4] \<rparr>"
  using run_single_task_invalid_index [of TASKS 5 fail_first False "(0, 0, 0)"]
  by (simp add: TASKS_def)

subsection \<open>C9: the step bound handed to the agent\<close>




subsection \<open>C10: the browser does not start\<close>

text \<open>
  Claim C10. If \<open>initialize_browser\<close> itself raises, the runner still calls the agent's
  close operation exactly once during cleanup, on a session that never started, and then
  propagates the initialisation error; no job is attempted and no report is written.

  The close of the \<open>finally\<close> clause is awaited with no guard around it, so an
  exception of the close replaces the pending one. With an agent whose browser does not
  start and whose close fails on the session that never started, the error that leaves
  \<open>run_all_tasks\<close> is the one of the close, not the one of the initialisation.
\<close>

theorem run_all_tasks_init_error_counterexample:
  "initialize_browser no_browser_no_close False (0, 0, 0) =
     (Some (Exception ''no browser''), (Suc 0, 0, 0))
   \<and> run_all_tasks no_browser_no_close save_ok TASKS False (0, 0, 0) =
       \<lparr> raised = Some (Exception ''close failed''), agent_state = (Suc 0, 0, Suc 0),
         trace = [Init False, Close], results = [] \<rparr>"
  by (simp add: run_all_tasks_def finally_close_def no_browser_no_close_def)

text \<open>
  Claim C10 as amended. If \<open>initialize_browser\<close> itself raises, the runner still calls
  the agent's close operation exactly once during cleanup, on a session that never
  started; no job is attempted and no report is written; and an error leaves the run:
  the initialisation error when the close returns, the error of the close when the close
  raises.
\<close>

theorem run_all_tasks_init_raises:
  assumes "initialize_browser ag headless s = (Some e, s1)"
  shows "trace (run_all_tasks ag save jobs headless s) = [Init headless, Close]
       \<and> results (run_all_tasks ag save jobs headless s) = []
       \<and> agent_state (run_all_tasks ag save jobs headless s) = snd (close_browser ag s1)
       \<and> raised (run_all_tasks ag save jobs headless s) =
           (case fst (close_browser ag s1) of None \<Rightarrow> Some e | Some e' \<Rightarrow> Some e')"
  using assms
  by (auto simp: run_all_tasks_def finally_close_def split: prod.splits option.splits)

text \<open>The fake whose browser does not start and whose close returns.\<close>

theorem run_all_tasks_init_raises_witness:
  "initialize_browser no_browser False (0, 0, 0) = (Some (Exception ''no browser''), (Suc 0, 0, 0))
   \<and> close_browser no_browser (Suc 0, 0, 0) = (None, (Suc 0, 0, Suc 0))
   \<and> trace (run_all_tasks no_browser save_ok TASKS False (0, 0, 0)) = [Init False, Close]
   \<and> results (run_all_tasks no_browser save_ok TASKS False (0, 0, 0)) = []
   \<and> agent_state (run_all_tasks no_browser save_ok TASKS False (0, 0, 0)) = (Suc 0, 0, Suc 0)
   \<and> raised (run_all_tasks no_browser save_ok TASKS False (0, 0, 0))
       = Some (Exception ''no browser'')"
proof -
  have h1: "initialize_browser no_browser False (0, 0, 0) = (Some (Exception ''no browser''), (Suc 0, 0, 0))"
    by (simp add: counting_agent_def no_browser_def)
  have h2: "close_browser no_browser (Suc 0, 0, 0) = (None, (Suc 0, 0, Suc 0))"
    by (simp add: counting_agent_def no_browser_def)
  from run_all_tasks_init_raises [OF h1, of save_ok TASKS] h1 h2
  show ?thesis by simp
qed

end
